theory Spec2Isabelle
  imports Main
begin

section \<open>The score document\<close>

text \<open>
  Both scripts work on the JSON score document: a score owns global structural events and
  instruments, an instrument owns staves, a staff owns staff structural events and voices,
  a voice owns interval events (notes). Python integers are unbounded, so ticks, durations
  and pitches are \<open>int\<close>. The one-field objects \<^verbatim>\<open>{"value": N}\<close> that wrap ticks, pitches
  and bpm are represented by their integer \<open>N\<close>.

  The duplication script asks for four keys before it reads them (\<^verbatim>\<open>instruments\<close>,
  \<^verbatim>\<open>staves\<close>, \<^verbatim>\<open>voices\<close>, \<^verbatim>\<open>interval_events\<close>); these four fields are optional
  (\<open>None\<close>: the key is absent). Every other field has the type the document schema gives
  it.
\<close>

datatype structural_event =
    Tempo int int
  | TimeSignature int int int
  | Clef int string
  | KeySignature int int

record interval_event =
  note_id :: string
  start_tick :: int
  duration_ticks :: int
  pitch :: int

record voice =
  voice_id :: string
  interval_events :: "interval_event list option"

record staff =
  staff_id :: string
  staff_structural_events :: "structural_event list"
  voices :: "voice list option"

record instrument =
  instrument_id :: string
  name :: string
  instrument_type :: string
  staves :: "staff list option"

record score =
  score_id :: string
  global_structural_events :: "structural_event list"
  instruments :: "instrument list option"

text \<open>
  The exceptions of Python that the duplication script can raise on such documents:
  \<^verbatim>\<open>ValueError\<close> (with its message) from \<^verbatim>\<open>max\<close> on an empty sequence, and
  \<^verbatim>\<open>KeyError\<close> (with the key) and \<^verbatim>\<open>IndexError\<close> from the subscripts of its closing
  \<^verbatim>\<open>print\<close>.
\<close>

datatype py_error = ValueError string | KeyError string | IndexError

text \<open>
  The exception of \<^verbatim>\<open>max\<close> on an empty sequence, with the message of CPython up to
  version 3.11 (later versions say \<^verbatim>\<open>max() iterable argument is empty\<close>). The script
  has no \<^verbatim>\<open>raise\<close> of its own: this built-in exception is the only one the pass can end
  with.
\<close>

abbreviation max_error :: py_error where
  "max_error \<equiv> ValueError ''max() arg is an empty sequence''"

section \<open>The duplication script (generate\_100\_measures.py, lines 11 to 26)\<close>

text \<open>
  \<^verbatim>\<open>max(...)\<close> over a generator: Python raises \<^verbatim>\<open>ValueError\<close> on an empty sequence;
  otherwise it keeps the first item and replaces it by each later item that is greater.
\<close>

fun py_max :: "int list \<Rightarrow> py_error + int" where
  "py_max [] = Inl max_error"
| "py_max (x # xs) = Inr (foldl (\<lambda>maxitem item. if item > maxitem then item else maxitem) x xs)"

text \<open>
  Lines 23 to 26. The loop runs over \<open>original_notes\<close>, the copy of the list made on
  line 19 before anything is appended; \<open>events\<close> is \<^verbatim>\<open>voice['interval_events']\<close>, the list
  the loop appends to. \<open>new_note\<close> is the deep copy of \<open>note\<close> (a JSON round trip gives
  an equal value that shares nothing with \<open>note\<close>), with \<open>max_tick\<close> added to its start
  tick.
\<close>

fun append_shifted :: "int \<Rightarrow> interval_event list \<Rightarrow> interval_event list \<Rightarrow> interval_event list" where
  "append_shifted max_tick [] events = events"
| "append_shifted max_tick (note # original_notes) events =
     (let new_note = note;
          new_note = new_note\<lparr>start_tick := start_tick new_note + max_tick\<rparr>
      in append_shifted max_tick original_notes (events @ [new_note]))"

text \<open>
  Lines 17 to 26, for one voice. The variable the source calls \<open>max_tick\<close> is already the
  offset: the greatest start tick plus 7680.
\<close>

definition dup_voice :: "voice \<Rightarrow> py_error + voice" where
  "dup_voice voice =
     (case interval_events voice of
        None \<Rightarrow> Inr voice
      | Some events \<Rightarrow>
          (let original_notes = events in
           case py_max (map start_tick original_notes) of
             Inl e \<Rightarrow> Inl e
           | Inr m \<Rightarrow>
               (let max_tick = m + 7680 in
                Inr (voice\<lparr>interval_events :=
                       Some (append_shifted max_tick original_notes events)\<rparr>))))"

text \<open>
  A \<^verbatim>\<open>for\<close> loop whose body updates the element it visits and may raise: the first
  exception ends the loop and the script.
\<close>

fun for_each :: "('a \<Rightarrow> py_error + 'a) \<Rightarrow> 'a list \<Rightarrow> py_error + 'a list" where
  "for_each body [] = Inr []"
| "for_each body (x # xs) =
     (case body x of
        Inl e \<Rightarrow> Inl e
      | Inr y \<Rightarrow> (case for_each body xs of Inl e \<Rightarrow> Inl e | Inr ys \<Rightarrow> Inr (y # ys)))"

text \<open>Lines 15 and 16.\<close>

definition dup_staff :: "staff \<Rightarrow> py_error + staff" where
  "dup_staff staff =
     (case voices staff of
        None \<Rightarrow> Inr staff
      | Some vs \<Rightarrow>
          (case for_each dup_voice vs of
             Inl e \<Rightarrow> Inl e
           | Inr vs' \<Rightarrow> Inr (staff\<lparr>voices := Some vs'\<rparr>)))"

text \<open>Lines 13 and 14.\<close>

definition dup_instrument :: "instrument \<Rightarrow> py_error + instrument" where
  "dup_instrument instrument =
     (case staves instrument of
        None \<Rightarrow> Inr instrument
      | Some ss \<Rightarrow>
          (case for_each dup_staff ss of
             Inl e \<Rightarrow> Inl e
           | Inr ss' \<Rightarrow> Inr (instrument\<lparr>staves := Some ss'\<rparr>)))"

text \<open>
  Lines 11 and 12: the whole pass. \<open>Inr\<close> is the document that line 30 writes; on \<open>Inl\<close>
  the script has stopped with the exception and writes nothing.
\<close>

definition duplicate :: "score \<Rightarrow> py_error + score" where
  "duplicate score =
     (case instruments score of
        None \<Rightarrow> Inr score
      | Some insts \<Rightarrow>
          if length insts > 0 then
            (case for_each dup_instrument insts of
               Inl e \<Rightarrow> Inl e
             | Inr insts' \<Rightarrow> Inr (score\<lparr>instruments := Some insts'\<rparr>))
          else Inr score)"

text \<open>
  Lines 19 to 26 once more, with the objects of Python made explicit. A note is an object
  in a store (\<open>heap\<close>, the list of all note objects; a reference is a position in it), and
  a voice's list holds references. \<^verbatim>\<open>.copy()\<close> on line 19 gives a new list of the same
  references, the deep copy on line 24 allocates a new object equal to the old one, and
  line 25 updates only that new object. References always point into the store, so the
  facts about this loop assume \<open>r < length heap\<close> for the references of the voice.
\<close>

type_synonym ref = nat

definition deep_copy :: "ref \<Rightarrow> interval_event list \<Rightarrow> ref \<times> interval_event list" where
  "deep_copy r heap = (length heap, heap @ [heap ! r])"

fun append_loop ::
  "int \<Rightarrow> ref list \<Rightarrow> ref list \<Rightarrow> interval_event list \<Rightarrow> ref list \<times> interval_event list" where
  "append_loop max_tick [] events heap = (events, heap)"
| "append_loop max_tick (note # original_notes) events heap =
     (case deep_copy note heap of
        (new_note, heap) \<Rightarrow>
          (let heap = heap[new_note :=
                 (heap ! new_note)\<lparr>start_tick := start_tick (heap ! new_note) + max_tick\<rparr>]
           in append_loop max_tick original_notes (events @ [new_note]) heap))"

definition dup_events_store :: "ref list \<Rightarrow> interval_event list \<Rightarrow> py_error + ref list \<times> interval_event list" where
  "dup_events_store events heap =
     (let original_notes = events in
      case py_max (map (\<lambda>note. start_tick (heap ! note)) original_notes) of
        Inl e \<Rightarrow> Inl e
      | Inr m \<Rightarrow> Inr (append_loop (m + 7680) original_notes events heap))"

text \<open>
  Lines 32 and 33, after the document is written: the number the closing \<^verbatim>\<open>print\<close>
  reports, \<^verbatim>\<open>len(score['instruments'][0]['staves'][0]['voices'][0]['interval_events'])\<close>.
  These subscripts are not guarded by the key tests of lines 11 to 17.
\<close>

definition report :: "score \<Rightarrow> py_error + nat" where
  "report score =
     (case instruments score of
        None \<Rightarrow> Inl (KeyError ''instruments'')
      | Some [] \<Rightarrow> Inl IndexError
      | Some (instrument # _) \<Rightarrow>
          (case staves instrument of
             None \<Rightarrow> Inl (KeyError ''staves'')
           | Some [] \<Rightarrow> Inl IndexError
           | Some (staff # _) \<Rightarrow>
               (case voices staff of
                  None \<Rightarrow> Inl (KeyError ''voices'')
                | Some [] \<Rightarrow> Inl IndexError
                | Some (voice # _) \<Rightarrow>
                    (case interval_events voice of
                       None \<Rightarrow> Inl (KeyError ''interval_events'')
                     | Some events \<Rightarrow> Inr (length events)))))"

text \<open>
  Lines 11 to 33, the script after it has loaded the document: the document that line 30
  writes to the output file (\<open>None\<close> when an exception has stopped the script before
  that line), and how the script ends, with the number it prints or with an uncaught
  exception.
\<close>

definition run_script :: "score \<Rightarrow> score option \<times> (py_error + nat)" where
  "run_script score =
     (case duplicate score of
        Inl e \<Rightarrow> (None, Inl e)
      | Inr score' \<Rightarrow> (Some score', report score'))"

text \<open>
  The words of the specification (section 7 and scenario C) for the exception on an empty
  voice, "an explicit, clearly identified empty voice error": read here as an exception
  whose message names the empty voice. \<open>mentions w s\<close>: the text \<open>w\<close> occurs in \<open>s\<close>.
\<close>

fun mentions :: "string \<Rightarrow> string \<Rightarrow> bool" where
  "mentions w [] = (w = [])"
| "mentions w (c # s) = (take (length w) (c # s) = w \<or> mentions w s)"

definition spec_empty_voice_error :: "py_error \<Rightarrow> bool" where
  "spec_empty_voice_error e =
     (case e of
        ValueError message \<Rightarrow> mentions ''empty voice'' message
      | KeyError k \<Rightarrow> False
      | IndexError \<Rightarrow> False)"

section \<open>The synthesis script (generate\_dense\_fixture.py)\<close>

text \<open>
  The f-string field \<^verbatim>\<open>{note_counter:04d}\<close>: the decimal digits of the counter, padded on
  the left with zeros to at least four characters. The counter starts at 10 or 10000 and
  only grows, so it is a natural number.
\<close>

definition digit_char :: "nat \<Rightarrow> char" where
  "digit_char d = ''0123456789'' ! d"

fun decimal :: "nat \<Rightarrow> string" where
  "decimal n = (if n < 10 then [digit_char n] else decimal (n div 10) @ [digit_char (n mod 10)])"

declare decimal.simps [simp del]

definition format_04d :: "nat \<Rightarrow> string" where
  "format_04d n = replicate (4 - length (decimal n)) CHR ''0'' @ decimal n"

text \<open>Lines 41 and 60: the identifier of a note, from the staff's prefix and its counter.\<close>

definition note_name :: "string \<Rightarrow> nat \<Rightarrow> string" where
  "note_name prefix note_counter =
     prefix @ format_04d note_counter @ ''-8400-e29b-41d4-a716-446655440000''"

text \<open>
  The four constants of lines 16 to 19. The two note loops are the same code but for the
  identifier prefix, the seed of the counter and the pitch list, so the model has one loop
  that takes these, and the four constants, as arguments; \<open>treble_notes\<close> and
  \<open>bass_notes\<close> below are the source's two loops.
\<close>

record timing =
  measure_count :: nat
  ticks_per_measure :: int
  note_duration :: int
  notes_per_measure :: nat

definition fixture_timing :: timing where
  "fixture_timing =
     \<lparr>measure_count = 30, ticks_per_measure = 3840, note_duration = 480, notes_per_measure = 8\<rparr>"

text \<open>
  Lines 36 to 46 (and 55 to 65): the inner loop over \<open>note_idx\<close>. The state is the list
  the loop appends to and \<open>note_counter\<close>. \<open>pitch_at note_idx\<close> stands for line 38 (57),
  \<^verbatim>\<open>treble_pitches[note_idx % len(treble_pitches)]\<close>.
\<close>

fun note_loop ::
  "string \<Rightarrow> (nat \<Rightarrow> int) \<Rightarrow> timing \<Rightarrow> int \<Rightarrow> nat list \<Rightarrow>
   interval_event list \<times> nat \<Rightarrow> interval_event list \<times> nat" where
  "note_loop prefix pitch_at t measure_start [] (notes, note_counter) = (notes, note_counter)"
| "note_loop prefix pitch_at t measure_start (note_idx # rest) (notes, note_counter) =
     (let tick = measure_start + int note_idx * note_duration t;
          p = pitch_at note_idx
      in note_loop prefix pitch_at t measure_start rest
           (notes @ [\<lparr>note_id = note_name prefix note_counter,
                      start_tick = tick,
                      duration_ticks = note_duration t,
                      pitch = p\<rparr>],
            note_counter + 1))"

text \<open>Lines 34 and 35 (53 and 54): the outer loop over \<open>measure\<close> (here \<open>measure_no\<close>).\<close>

fun measure_loop ::
  "string \<Rightarrow> (nat \<Rightarrow> int) \<Rightarrow> timing \<Rightarrow> nat list \<Rightarrow>
   interval_event list \<times> nat \<Rightarrow> interval_event list \<times> nat" where
  "measure_loop prefix pitch_at t [] state = state"
| "measure_loop prefix pitch_at t (measure_no # rest) state =
     (let measure_start = int measure_no * ticks_per_measure t
      in measure_loop prefix pitch_at t rest
           (note_loop prefix pitch_at t measure_start [0..<notes_per_measure t] state))"

definition staff_notes :: "string \<Rightarrow> nat \<Rightarrow> (nat \<Rightarrow> int) \<Rightarrow> timing \<Rightarrow> interval_event list" where
  "staff_notes prefix seed pitch_at t =
     fst (measure_loop prefix pitch_at t [0..<measure_count t] ([], seed))"

text \<open>Lines 30 to 46.\<close>

definition treble_pitches :: "int list" where
  "treble_pitches = [60, 62, 64, 65, 67, 69, 71, 72]"

definition treble_notes :: "interval_event list" where
  "treble_notes =
     staff_notes ''tn'' 10
       (\<lambda>note_idx. treble_pitches ! (note_idx mod length treble_pitches)) fixture_timing"

text \<open>Lines 49 to 65.\<close>

definition bass_pitches :: "int list" where
  "bass_pitches = [48, 50, 52, 53, 55, 57, 59, 60]"

definition bass_notes :: "interval_event list" where
  "bass_notes =
     staff_notes ''bn'' 10000
       (\<lambda>note_idx. bass_pitches ! (note_idx mod length bass_pitches)) fixture_timing"

text \<open>Lines 68 to 140 and 150: the document the function returns.\<close>

definition generate_dense_fixture :: score where
  "generate_dense_fixture =
     \<lparr>score_id = ''aa0e8400-e29b-41d4-a716-446655440000'',
      global_structural_events = [Tempo 0 120, TimeSignature 0 4 4],
      instruments = Some
        [\<lparr>instrument_id = ''bb0e8400-e29b-41d4-a716-446655440001'',
          name = ''Piano'',
          instrument_type = ''piano'',
          staves = Some
            [\<lparr>staff_id = ''cc0e8400-e29b-41d4-a716-446655440002'',
              staff_structural_events = [Clef 0 ''Treble'', KeySignature 0 0],
              voices = Some
                [\<lparr>voice_id = ''ee0e8400-e29b-41d4-a716-446655440004'',
                  interval_events = Some treble_notes\<rparr>]\<rparr>,
             \<lparr>staff_id = ''dd0e8400-e29b-41d4-a716-446655440003'',
              staff_structural_events = [Clef 0 ''Bass'', KeySignature 0 0],
              voices = Some
                [\<lparr>voice_id = ''ff0e8400-e29b-41d4-a716-446655440005'',
                  interval_events = Some bass_notes\<rparr>]\<rparr>]\<rparr>]\<rparr>"

text \<open>
  The note that the two loops append for measure \<open>m\<close> and index \<open>i\<close>, when the counter
  started at \<open>seed\<close>: the closed form of the loops, proved below.
\<close>

definition note_of :: "string \<Rightarrow> (nat \<Rightarrow> int) \<Rightarrow> timing \<Rightarrow> nat \<Rightarrow> nat \<Rightarrow> nat \<Rightarrow> interval_event" where
  "note_of prefix pitch_at t seed m i =
     \<lparr>note_id = note_name prefix (seed + m * notes_per_measure t + i),
      start_tick = int m * ticks_per_measure t + int i * note_duration t,
      duration_ticks = note_duration t,
      pitch = pitch_at i\<rparr>"

text \<open>
  The number that a string of decimal digits denotes. It reads back what \<open>format_04d\<close>
  prints, which shows that two counters never print alike.
\<close>

definition digit_value :: "char \<Rightarrow> nat" where
  "digit_value c = of_char c - 48"

definition decimal_value :: "string \<Rightarrow> nat" where
  "decimal_value s = foldl (\<lambda>a c. 10 * a + digit_value c) 0 s"

section \<open>Reading a document\<close>

text \<open>
  The lists the properties below speak of: the voices the duplication pass visits and all
  interval events of a document, in document order. An absent key contributes nothing.
\<close>

definition staff_voices :: "staff \<Rightarrow> voice list" where
  "staff_voices s = (case voices s of None \<Rightarrow> [] | Some vs \<Rightarrow> vs)"

definition instrument_staves :: "instrument \<Rightarrow> staff list" where
  "instrument_staves i = (case staves i of None \<Rightarrow> [] | Some ss \<Rightarrow> ss)"

definition score_instruments :: "score \<Rightarrow> instrument list" where
  "score_instruments sc = (case instruments sc of None \<Rightarrow> [] | Some insts \<Rightarrow> insts)"

definition score_voices :: "score \<Rightarrow> voice list" where
  "score_voices sc =
     concat (map staff_voices (concat (map instrument_staves (score_instruments sc))))"

definition voice_events :: "voice \<Rightarrow> interval_event list" where
  "voice_events v = (case interval_events v of None \<Rightarrow> [] | Some ns \<Rightarrow> ns)"

definition score_events :: "score \<Rightarrow> interval_event list" where
  "score_events sc = concat (map voice_events (score_voices sc))"

text \<open>The interval events of one staff.\<close>

definition staff_events :: "staff \<Rightarrow> interval_event list" where
  "staff_events s = concat (map voice_events (staff_voices s))"

section \<open>Example documents\<close>

text \<open>A voice with three notes at ticks 0, 480 and 960.\<close>

definition scenario_b_notes :: "interval_event list" where
  "scenario_b_notes =
     [\<lparr>note_id = ''a'', start_tick = 0, duration_ticks = 480, pitch = 60\<rparr>,
      \<lparr>note_id = ''b'', start_tick = 480, duration_ticks = 240, pitch = 62\<rparr>,
      \<lparr>note_id = ''c'', start_tick = 960, duration_ticks = 960, pitch = 64\<rparr>]"

definition scenario_b_voice :: voice where
  "scenario_b_voice = \<lparr>voice_id = ''v1'', interval_events = Some scenario_b_notes\<rparr>"

text \<open>
  A voice whose event list is empty, and documents with one instrument built from given
  staves.
\<close>

definition empty_voice :: voice where
  "empty_voice = \<lparr>voice_id = ''v0'', interval_events = Some []\<rparr>"

definition example_staff :: "voice list \<Rightarrow> staff" where
  "example_staff vs =
     \<lparr>staff_id = ''s1'', staff_structural_events = [Clef 0 ''Treble'', KeySignature 0 0],
      voices = Some vs\<rparr>"

definition example_score :: "staff list \<Rightarrow> score" where
  "example_score ss =
     \<lparr>score_id = ''sc'', global_structural_events = [Tempo 0 120, TimeSignature 0 4 4],
      instruments = Some
        [\<lparr>instrument_id = ''i1'', name = ''Piano'', instrument_type = ''piano'',
          staves = Some ss\<rparr>]\<rparr>"

definition empty_voice_score :: score where
  "empty_voice_score = example_score [example_staff [scenario_b_voice, empty_voice]]"




definition keyless_score :: score where
  "keyless_score = \<lparr>score_id = ''sc9'', global_structural_events = [Tempo 0 90], instruments = None\<rparr>"




text \<open>
  A document with two voices of different lengths, and the document the pass makes of it.
\<close>

definition short_voice :: voice where
  "short_voice = \<lparr>voice_id = ''v2'', interval_events = Some
     [\<lparr>note_id = ''d'', start_tick = 100, duration_ticks = 480, pitch = 48\<rparr>]\<rparr>"

definition two_voice_score :: score where
  "two_voice_score = example_score [example_staff [scenario_b_voice, short_voice]]"

definition two_voice_result :: score where
  "two_voice_result = example_score [example_staff
     [scenario_b_voice\<lparr>interval_events := Some (scenario_b_notes @
        map (\<lambda>n. n\<lparr>start_tick := start_tick n + 8640\<rparr>) scenario_b_notes)\<rparr>,
      short_voice\<lparr>interval_events := Some
        [\<lparr>note_id = ''d'', start_tick = 100, duration_ticks = 480, pitch = 48\<rparr>,
         \<lparr>note_id = ''d'', start_tick = 7880, duration_ticks = 480, pitch = 48\<rparr>]\<rparr>]]"

section \<open>What a pass leaves unchanged\<close>

text \<open>
  The relation between a document and the document after a pass, level by level: every
  field but the list below is the same (the record equation), the lists have the same
  lengths, and a voice's list starts with the voice's original events, followed by their
  copies shifted by the offset of this voice: the greatest start tick of its own events
  plus 7680.
\<close>

definition voice_frame :: "voice \<Rightarrow> voice \<Rightarrow> bool" where
  "voice_frame v v' \<longleftrightarrow>
     v' = v\<lparr>interval_events := interval_events v'\<rparr> \<and>
     (case interval_events v of
        None \<Rightarrow> interval_events v' = None
      | Some ns \<Rightarrow>
          (case interval_events v' of
             None \<Rightarrow> False
           | Some ns' \<Rightarrow>
               take (length ns) ns' = ns \<and>
               drop (length ns) ns' =
                 map (\<lambda>n. n\<lparr>start_tick := start_tick n + (Max (set (map start_tick ns)) + 7680)\<rparr>) ns))"

definition staff_frame :: "staff \<Rightarrow> staff \<Rightarrow> bool" where
  "staff_frame s s' \<longleftrightarrow>
     s' = s\<lparr>voices := voices s'\<rparr> \<and>
     rel_option (list_all2 voice_frame) (voices s) (voices s')"

definition instrument_frame :: "instrument \<Rightarrow> instrument \<Rightarrow> bool" where
  "instrument_frame i i' \<longleftrightarrow>
     i' = i\<lparr>staves := staves i'\<rparr> \<and>
     rel_option (list_all2 staff_frame) (staves i) (staves i')"

definition score_frame :: "score \<Rightarrow> score \<Rightarrow> bool" where
  "score_frame sc sc' \<longleftrightarrow>
     sc' = sc\<lparr>instruments := instruments sc'\<rparr> \<and>
     rel_option (list_all2 instrument_frame) (instruments sc) (instruments sc')"

section \<open>Facts about the duplication loop\<close>

lemma foldl_greater_fold_max:
  "foldl (\<lambda>maxitem item. if item > maxitem then item else maxitem) a ys = fold max ys (a::int)"
proof (induction ys arbitrary: a)
  case Nil
  show ?case by simp
next
  case (Cons y ys)
  have "(if a < y then y else a) = max y a" by (simp add: max_def)
  with Cons show ?case by simp
qed

lemma py_max_Max: "xs \<noteq> [] \<Longrightarrow> py_max xs = Inr (Max (set xs))"
proof (cases xs)
  case Nil
  assume "xs \<noteq> []"
  with Nil show ?thesis by simp
next
  case (Cons x ys)
  then show ?thesis
    by (simp only: py_max.simps foldl_greater_fold_max Max.set_eq_fold)
qed

lemma append_shifted_eq:
  "append_shifted off ns events = events @ map (\<lambda>n. n\<lparr>start_tick := start_tick n + off\<rparr>) ns"
  by (induction ns arbitrary: events) (simp_all add: Let_def)

lemma dup_voice_Some:
  assumes "interval_events v = Some ns" and "ns \<noteq> []"
  shows "dup_voice v = Inr (v\<lparr>interval_events :=
           Some (ns @ map (\<lambda>n. n\<lparr>start_tick := start_tick n + (Max (set (map start_tick ns)) + 7680)\<rparr>) ns)\<rparr>)"
  using assms by (simp add: dup_voice_def py_max_Max append_shifted_eq)

lemma dup_voice_empty: "interval_events v = Some [] \<Longrightarrow> dup_voice v = Inl max_error"
  by (simp add: dup_voice_def)

lemma dup_voice_None: "interval_events v = None \<Longrightarrow> dup_voice v = Inr v"
  by (simp add: dup_voice_def)

lemma for_each_Inr_iff:
  "for_each body xs = Inr ys \<longleftrightarrow> list_all2 (\<lambda>x y. body x = Inr y) xs ys"
proof (induction xs arbitrary: ys)
  case Nil
  show ?case by auto
next
  case (Cons x xs)
  show ?case
  proof (cases "body x")
    case (Inl e)
    then show ?thesis by (auto simp: list_all2_Cons1)
  next
    case (Inr y)
    show ?thesis
    proof (cases "for_each body xs")
      case (Inl e)
      with Cons Inr show ?thesis by (auto simp: list_all2_Cons1)
    next
      case r: (Inr zs)
      with Cons Inr show ?thesis by (auto simp: list_all2_Cons1)
    qed
  qed
qed

lemma for_each_Inl_iff:
  "(\<exists>e. for_each body xs = Inl e) \<longleftrightarrow> (\<exists>x \<in> set xs. \<exists>e. body x = Inl e)"
  by (induction xs) (auto split: sum.splits)

lemma for_each_Inl_elem: "for_each body xs = Inl e \<Longrightarrow> \<exists>x \<in> set xs. body x = Inl e"
  by (induction xs) (auto split: sum.splits)

lemma dup_voice_raises: "dup_voice v = Inl e \<Longrightarrow> e = max_error"
proof (cases "interval_events v")
  case None
  assume "dup_voice v = Inl e"
  with None show ?thesis by (simp add: dup_voice_None)
next
  case (Some ns)
  assume "dup_voice v = Inl e"
  with Some show ?thesis
    by (cases "ns = []") (simp_all add: dup_voice_empty dup_voice_Some)
qed

lemma dup_staff_raises: "dup_staff s = Inl e \<Longrightarrow> e = max_error"
proof (cases "voices s")
  case None
  assume "dup_staff s = Inl e"
  with None show ?thesis by (simp add: dup_staff_def)
next
  case (Some vs)
  assume "dup_staff s = Inl e"
  with Some have "for_each dup_voice vs = Inl e"
    by (auto simp: dup_staff_def split: sum.splits)
  then show ?thesis by (blast dest: for_each_Inl_elem dup_voice_raises)
qed

lemma dup_instrument_raises: "dup_instrument i = Inl e \<Longrightarrow> e = max_error"
proof (cases "staves i")
  case None
  assume "dup_instrument i = Inl e"
  with None show ?thesis by (simp add: dup_instrument_def)
next
  case (Some ss)
  assume "dup_instrument i = Inl e"
  with Some have "for_each dup_staff ss = Inl e"
    by (auto simp: dup_instrument_def split: sum.splits)
  then show ?thesis by (blast dest: for_each_Inl_elem dup_staff_raises)
qed

lemma duplicate_raises: "duplicate sc = Inl e \<Longrightarrow> e = max_error"
proof (cases "instruments sc")
  case None
  assume "duplicate sc = Inl e"
  with None show ?thesis by (simp add: duplicate_def)
next
  case (Some insts)
  assume "duplicate sc = Inl e"
  with Some have "for_each dup_instrument insts = Inl e"
    by (auto simp: duplicate_def split: sum.splits if_splits)
  then show ?thesis by (blast dest: for_each_Inl_elem dup_instrument_raises)
qed

lemma dup_voice_Inl_iff: "(\<exists>e. dup_voice v = Inl e) \<longleftrightarrow> interval_events v = Some []"
proof (cases "interval_events v")
  case None
  then show ?thesis by (simp add: dup_voice_None)
next
  case (Some ns)
  show ?thesis
  proof (cases "ns = []")
    case True
    with Some show ?thesis by (simp add: dup_voice_empty)
  next
    case False
    with Some show ?thesis by (simp add: dup_voice_Some)
  qed
qed

lemma dup_staff_Inl_iff:
  "(\<exists>e. dup_staff s = Inl e) \<longleftrightarrow> (\<exists>v \<in> set (staff_voices s). interval_events v = Some [])"
proof (cases "voices s")
  case None
  then show ?thesis by (simp add: dup_staff_def staff_voices_def)
next
  case (Some vs)
  have "(\<exists>e. dup_staff s = Inl e) \<longleftrightarrow> (\<exists>e. for_each dup_voice vs = Inl e)"
    using Some by (auto simp: dup_staff_def split: sum.splits)
  also have "\<dots> \<longleftrightarrow> (\<exists>v \<in> set vs. interval_events v = Some [])"
    by (simp only: for_each_Inl_iff dup_voice_Inl_iff)
  finally show ?thesis using Some by (simp add: staff_voices_def)
qed

lemma dup_instrument_Inl_iff:
  "(\<exists>e. dup_instrument i = Inl e) \<longleftrightarrow>
   (\<exists>s \<in> set (instrument_staves i). \<exists>v \<in> set (staff_voices s). interval_events v = Some [])"
proof (cases "staves i")
  case None
  then show ?thesis by (simp add: dup_instrument_def instrument_staves_def)
next
  case (Some ss)
  have "(\<exists>e. dup_instrument i = Inl e) \<longleftrightarrow> (\<exists>e. for_each dup_staff ss = Inl e)"
    using Some by (auto simp: dup_instrument_def split: sum.splits)
  also have "\<dots> \<longleftrightarrow> (\<exists>s \<in> set ss. \<exists>v \<in> set (staff_voices s). interval_events v = Some [])"
    by (simp only: for_each_Inl_iff dup_staff_Inl_iff)
  finally show ?thesis using Some by (simp add: instrument_staves_def)
qed

lemma duplicate_Inl_iff:
  "(\<exists>e. duplicate sc = Inl e) \<longleftrightarrow> (\<exists>v \<in> set (score_voices sc). interval_events v = Some [])"
proof (cases "instruments sc")
  case None
  then show ?thesis by (simp add: duplicate_def score_voices_def score_instruments_def)
next
  case (Some insts)
  have "(\<exists>e. duplicate sc = Inl e) \<longleftrightarrow> (\<exists>e. for_each dup_instrument insts = Inl e)"
    using Some by (cases insts) (auto simp: duplicate_def split: sum.splits)
  also have "\<dots> \<longleftrightarrow> (\<exists>i \<in> set insts. \<exists>s \<in> set (instrument_staves i).
                          \<exists>v \<in> set (staff_voices s). interval_events v = Some [])"
    by (simp only: for_each_Inl_iff dup_instrument_Inl_iff)
  finally show ?thesis using Some by (auto simp: score_voices_def score_instruments_def)
qed

section \<open>Facts about the synthesis loops\<close>

lemma note_loop_append:
  "note_loop prefix pitch_at t ms (xs @ ys) st =
   note_loop prefix pitch_at t ms ys (note_loop prefix pitch_at t ms xs st)"
proof (induction xs arbitrary: st)
  case Nil
  show ?case by (cases st) simp
next
  case (Cons x xs)
  show ?case by (cases st) (simp add: Cons Let_def)
qed

lemma note_loop_upt:
  "note_loop prefix pitch_at t ms [0..<n] (notes, c) =
   (notes @ map (\<lambda>i. \<lparr>note_id = note_name prefix (c + i),
                        start_tick = ms + int i * note_duration t,
                        duration_ticks = note_duration t,
                        pitch = pitch_at i\<rparr>) [0..<n], c + n)"
  by (induction n) (simp_all add: note_loop_append Let_def)



lemma measure_loop_append:
  "measure_loop prefix pitch_at t (xs @ ys) st =
   measure_loop prefix pitch_at t ys (measure_loop prefix pitch_at t xs st)"
  by (induction xs arbitrary: st) (simp_all add: Let_def)

lemma concat_blocks:
  "concat (map (\<lambda>k. map (f k) [0..<n]) [0..<m]) = map (\<lambda>j. f (j div n) (j mod n)) [0..<m * n]"
proof (induction m)
  case 0
  show ?case by simp
next
  case (Suc m)
  have split: "[0..<Suc m * n] = [0..<m * n] @ map (\<lambda>i. i + m * n) [0..<n]"
    by (simp only: map_add_upt mult_Suc upt_add_eq_append [OF le0] add.commute [of n] add_0)
  have blk: "map (\<lambda>j. f (j div n) (j mod n)) (map (\<lambda>i. i + m * n) [0..<n]) = map (f m) [0..<n]"
    by (rule nth_equalityI) simp_all
  have "concat (map (\<lambda>k. map (f k) [0..<n]) [0..<Suc m]) =
        concat (map (\<lambda>k. map (f k) [0..<n]) [0..<m]) @ map (f m) [0..<n]"
    by simp
  also have "\<dots> = map (\<lambda>j. f (j div n) (j mod n)) [0..<m * n] @ map (f m) [0..<n]"
    by (simp only: Suc.IH)
  also have "\<dots> = map (\<lambda>j. f (j div n) (j mod n)) [0..<Suc m * n]"
    by (simp only: split map_append blk)
  finally show ?case .
qed


lemma note_loop_block:
  "note_loop prefix pitch_at t (int m * ticks_per_measure t) [0..<notes_per_measure t]
     (notes, seed + m * notes_per_measure t) =
   (notes @ map (note_of prefix pitch_at t seed m) [0..<notes_per_measure t],
    seed + Suc m * notes_per_measure t)"
proof -
  have "note_of prefix pitch_at t seed m =
        (\<lambda>i. \<lparr>note_id = note_name prefix (seed + m * notes_per_measure t + i),
               start_tick = int m * ticks_per_measure t + int i * note_duration t,
               duration_ticks = note_duration t,
               pitch = pitch_at i\<rparr>)"
    by (rule ext) (simp only: note_of_def)
  moreover have "seed + m * notes_per_measure t + notes_per_measure t =
                 seed + Suc m * notes_per_measure t"
    by simp
  ultimately show ?thesis by (simp only: note_loop_upt)
qed

lemma measure_loop_upt:
  "measure_loop prefix pitch_at t [0..<m] (notes, seed) =
   (notes @ concat (map (\<lambda>k. map (note_of prefix pitch_at t seed k) [0..<notes_per_measure t]) [0..<m]),
    seed + m * notes_per_measure t)"
proof (induction m)
  case 0
  show ?case by simp
next
  case (Suc m)
  have "measure_loop prefix pitch_at t [0..<Suc m] (notes, seed) =
        measure_loop prefix pitch_at t [m] (measure_loop prefix pitch_at t [0..<m] (notes, seed))"
    by (simp only: upt_Suc_append [OF le0] measure_loop_append)
  also have "\<dots> = note_loop prefix pitch_at t (int m * ticks_per_measure t) [0..<notes_per_measure t]
      (notes @ concat (map (\<lambda>k. map (note_of prefix pitch_at t seed k) [0..<notes_per_measure t]) [0..<m]),
       seed + m * notes_per_measure t)"
    by (simp only: Suc.IH measure_loop.simps Let_def)
  also have "\<dots> = (notes @ concat (map (\<lambda>k. map (note_of prefix pitch_at t seed k) [0..<notes_per_measure t]) [0..<Suc m]),
       seed + Suc m * notes_per_measure t)"
    by (simp only: note_loop_block upt_Suc_append [OF le0] map_append concat_append
        list.map concat.simps append_Nil2 append_assoc)
  finally show ?case .
qed

lemma staff_notes_eq:
  "staff_notes prefix seed pitch_at t =
   map (\<lambda>j. note_of prefix pitch_at t seed (j div notes_per_measure t) (j mod notes_per_measure t))
     [0..<measure_count t * notes_per_measure t]"
  by (simp only: staff_notes_def measure_loop_upt concat_blocks fst_conv append_Nil)

section \<open>The duplication pass on one voice\<close>

text \<open>
  C1. A voice whose event list \<open>ns\<close> is not empty: the pass returns the voice with the
  list \<open>ns @ dups\<close>, where \<open>dups\<close> has one event for each event of \<open>ns\<close>, in the same
  order, and the start tick of the \<open>i\<close>-th is the start tick of \<open>ns ! i\<close> plus the greatest
  start tick of \<open>ns\<close> plus 7680. When the start ticks of \<open>ns\<close> are 0, 480 and 960, those
  of \<open>dups\<close> are 8640, 9120 and 9600.
\<close>

theorem duplication_offset:
  assumes "interval_events v = Some ns" and "ns \<noteq> []"
  shows "\<exists>dups. dup_voice v = Inr (v\<lparr>interval_events := Some (ns @ dups)\<rparr>) \<and>
           length dups = length ns \<and>
           (\<forall>i<length ns. start_tick (dups ! i) =
              start_tick (ns ! i) + (Max (set (map start_tick ns)) + 7680)) \<and>
           (set (map start_tick ns) = {0, 480, 960} \<longrightarrow>
              set (map start_tick dups) = {8640, 9120, 9600})"
proof -
  let ?off = "Max (set (map start_tick ns)) + 7680"
  let ?dups = "map (\<lambda>n. n\<lparr>start_tick := start_tick n + ?off\<rparr>) ns"
  have run: "dup_voice v = Inr (v\<lparr>interval_events := Some (ns @ ?dups)\<rparr>)"
    using assms by (rule dup_voice_Some)
  have len: "length ?dups = length ns" by simp
  have shift: "\<forall>i<length ns. start_tick (?dups ! i) = start_tick (ns ! i) + ?off"
    by simp
  have scen: "set (map start_tick ?dups) = {8640, 9120, 9600}"
    if "set (map start_tick ns) = {0, 480, 960}"
  proof -
    have "Max (set (map start_tick ns)) = 960" using that by simp
    then have "set (map start_tick ?dups) = (\<lambda>t. t + 8640) ` set (map start_tick ns)"
      by (auto simp: image_iff)
    with that show ?thesis by simp
  qed
  from run len shift scen show ?thesis by blast
qed

theorem duplication_offset_witness:
  "interval_events scenario_b_voice = Some scenario_b_notes \<and> scenario_b_notes \<noteq> [] \<and>
   set (map start_tick scenario_b_notes) = {0, 480, 960} \<and>
   (\<exists>dups. dup_voice scenario_b_voice =
             Inr (scenario_b_voice\<lparr>interval_events := Some (scenario_b_notes @ dups)\<rparr>) \<and>
           length dups = 3 \<and> set (map start_tick dups) = {8640, 9120, 9600})"
proof -
  have h1: "interval_events scenario_b_voice = Some scenario_b_notes"
    by (simp add: scenario_b_voice_def)
  have h2: "scenario_b_notes \<noteq> []"
    by (simp add: scenario_b_notes_def)
  have h3: "set (map start_tick scenario_b_notes) = {0, 480, 960}"
    by (simp add: scenario_b_notes_def)
  have h4: "length scenario_b_notes = 3"
    by (simp add: scenario_b_notes_def)
  from duplication_offset [OF h1 h2] h1 h2 h3 h4 show ?thesis by metis
qed

text \<open>
  C2. A voice with \<open>k\<close> events: the pass returns when \<open>k > 0\<close>, and whenever it returns,
  the voice holds \<open>2 * k\<close> events and the event at position \<open>k + i\<close> has the duration and
  the pitch of the event at position \<open>i\<close>, for every \<open>i < k\<close>.
\<close>

theorem duplication_cardinality_order:
  assumes "interval_events v = Some ns"
  shows "(ns \<noteq> [] \<longrightarrow> (\<exists>v'. dup_voice v = Inr v')) \<and>
         (\<forall>v'. dup_voice v = Inr v' \<longrightarrow>
            (\<exists>ns'. interval_events v' = Some ns' \<and> length ns' = 2 * length ns \<and>
               (\<forall>i<length ns.
                  duration_ticks (ns' ! (length ns + i)) = duration_ticks (ns ! i) \<and>
                  pitch (ns' ! (length ns + i)) = pitch (ns ! i))))"
proof (cases "ns = []")
  case True
  with assms have "dup_voice v = Inl max_error" by (simp add: dup_voice_empty)
  with True show ?thesis by simp
next
  case False
  let ?off = "Max (set (map start_tick ns)) + 7680"
  let ?ns' = "ns @ map (\<lambda>n. n\<lparr>start_tick := start_tick n + ?off\<rparr>) ns"
  have run: "dup_voice v = Inr (v\<lparr>interval_events := Some ?ns'\<rparr>)"
    using assms False by (rule dup_voice_Some)
  have "length ?ns' = 2 * length ns" by simp
  moreover have "\<forall>i<length ns.
      duration_ticks (?ns' ! (length ns + i)) = duration_ticks (ns ! i) \<and>
      pitch (?ns' ! (length ns + i)) = pitch (ns ! i)"
    by (simp add: nth_append)
  ultimately show ?thesis using run by auto
qed

theorem duplication_cardinality_order_witness:
  "interval_events scenario_b_voice = Some scenario_b_notes \<and>
   (\<exists>v' ns'. dup_voice scenario_b_voice = Inr v' \<and> interval_events v' = Some ns' \<and>
      length ns' = 6 \<and>
      map duration_ticks (drop 3 ns') = [480, 240, 960] \<and>
      map pitch (drop 3 ns') = [60, 62, 64])"
proof -
  have h1: "interval_events scenario_b_voice = Some scenario_b_notes"
    by (simp add: scenario_b_voice_def)
  have h2: "scenario_b_notes \<noteq> []" "length scenario_b_notes = 3"
    by (simp_all add: scenario_b_notes_def)
  from duplication_cardinality_order [OF h1] h2 obtain v' ns' where
    run: "dup_voice scenario_b_voice = Inr v'" and ev: "interval_events v' = Some ns'"
    and len: "length ns' = 6"
    and same: "\<forall>i<3. duration_ticks (ns' ! (3 + i)) = duration_ticks (scenario_b_notes ! i) \<and>
                       pitch (ns' ! (3 + i)) = pitch (scenario_b_notes ! i)"
    by fastforce
  have d: "length (drop 3 ns') = 3" using len by simp
  have "map duration_ticks (drop 3 ns') = map duration_ticks scenario_b_notes"
    using same len h2 by (intro nth_equalityI) (simp_all add: d)
  moreover have "map pitch (drop 3 ns') = map pitch scenario_b_notes"
    using same len h2 by (intro nth_equalityI) (simp_all add: d)
  ultimately show ?thesis using h1 run ev len by (simp add: scenario_b_notes_def)
qed

text \<open>
  C3. The pass copies identifiers: whenever it returns, for every \<open>i < k\<close> the events at
  positions \<open>i\<close> and \<open>k + i\<close> carry the identifier of the original event \<open>i\<close>, and no
  identifier occurs in the voice that was not there before.
\<close>

theorem duplication_keeps_ids:
  assumes "interval_events v = Some ns"
  shows "(ns \<noteq> [] \<longrightarrow> (\<exists>v'. dup_voice v = Inr v')) \<and>
         (\<forall>v'. dup_voice v = Inr v' \<longrightarrow>
            (\<exists>ns'. interval_events v' = Some ns' \<and> length ns' = 2 * length ns \<and>
               (\<forall>i<length ns.
                  note_id (ns' ! i) = note_id (ns ! i) \<and>
                  note_id (ns' ! (length ns + i)) = note_id (ns ! i)) \<and>
               set (map note_id ns') = set (map note_id ns)))"
proof (cases "ns = []")
  case True
  with assms have "dup_voice v = Inl max_error" by (simp add: dup_voice_empty)
  with True show ?thesis by simp
next
  case False
  let ?off = "Max (set (map start_tick ns)) + 7680"
  let ?ns' = "ns @ map (\<lambda>n. n\<lparr>start_tick := start_tick n + ?off\<rparr>) ns"
  have run: "dup_voice v = Inr (v\<lparr>interval_events := Some ?ns'\<rparr>)"
    using assms False by (rule dup_voice_Some)
  have "length ?ns' = 2 * length ns" by simp
  moreover have "\<forall>i<length ns.
      note_id (?ns' ! i) = note_id (ns ! i) \<and>
      note_id (?ns' ! (length ns + i)) = note_id (ns ! i)"
    by (simp add: nth_append)
  moreover have "set (map note_id ?ns') = set (map note_id ns)"
    by (auto simp: image_iff)
  ultimately show ?thesis using run by auto
qed

theorem duplication_keeps_ids_witness:
  "interval_events scenario_b_voice = Some scenario_b_notes \<and>
   (\<exists>v' ns'. dup_voice scenario_b_voice = Inr v' \<and> interval_events v' = Some ns' \<and>
      length ns' = 6 \<and> map note_id (drop 3 ns') = [''a'', ''b'', ''c''] \<and>
      map note_id (take 3 ns') = [''a'', ''b'', ''c''])"
proof -
  have h1: "interval_events scenario_b_voice = Some scenario_b_notes"
    by (simp add: scenario_b_voice_def)
  have h2: "scenario_b_notes \<noteq> []" "length scenario_b_notes = 3"
    by (simp_all add: scenario_b_notes_def)
  from duplication_keeps_ids [OF h1] h2 obtain v' ns' where
    run: "dup_voice scenario_b_voice = Inr v'" and ev: "interval_events v' = Some ns'"
    and len: "length ns' = 6"
    and same: "\<forall>i<3. note_id (ns' ! i) = note_id (scenario_b_notes ! i) \<and>
                       note_id (ns' ! (3 + i)) = note_id (scenario_b_notes ! i)"
    by fastforce
  have "map note_id (drop 3 ns') = map note_id scenario_b_notes"
    using same len h2 by (intro nth_equalityI) simp_all
  moreover have "map note_id (take 3 ns') = map note_id scenario_b_notes"
    using same len h2 by (intro nth_equalityI) simp_all
  ultimately show ?thesis using h1 run ev len by (simp add: scenario_b_notes_def)
qed

text \<open>
  C4. A voice whose event list is empty: the pass does not complete and makes no copy.
  Line 20 raises before anything is appended, the script ends with that exception and
  writes no document. The exception is the \<^verbatim>\<open>ValueError\<close> that \<^verbatim>\<open>max\<close> itself raises on an
  empty sequence; its message does not name the voice.
\<close>

theorem empty_voice_raises:
  "(interval_events v = Some [] \<longrightarrow> dup_voice v = Inl max_error) \<and>
   (v \<in> set (score_voices sc) \<and> interval_events v = Some [] \<longrightarrow>
      duplicate sc = Inl max_error \<and> run_script sc = (None, Inl max_error))"
proof -
  have "duplicate sc = Inl max_error"
    if "v \<in> set (score_voices sc)" and "interval_events v = Some []"
  proof -
    from that have "\<exists>e. duplicate sc = Inl e"
      by (simp only: duplicate_Inl_iff) blast
    then obtain e where e: "duplicate sc = Inl e" ..
    then have "e = max_error" by (rule duplicate_raises)
    with e show ?thesis by simp
  qed
  then show ?thesis
    by (simp add: dup_voice_empty run_script_def)
qed

theorem empty_voice_raises_witness:
  "interval_events empty_voice = Some [] \<and> dup_voice empty_voice = Inl max_error \<and>
   empty_voice \<in> set (score_voices empty_voice_score) \<and>
   duplicate empty_voice_score = Inl max_error \<and>
   run_script empty_voice_score = (None, Inl max_error)"
proof -
  have h1: "interval_events empty_voice = Some []"
    by (simp add: empty_voice_def)
  have h2: "empty_voice \<in> set (score_voices empty_voice_score)"
    by (simp add: empty_voice_score_def example_score_def example_staff_def score_voices_def
        score_instruments_def instrument_staves_def staff_voices_def)
  from empty_voice_raises [of empty_voice empty_voice_score] h1 h2 show ?thesis by simp
qed

text \<open>
  The exception on the empty voice is not the one the specification words: its message
  is that of \<^verbatim>\<open>max\<close>, in the wording of either CPython version, and does not mention an
  empty voice.
\<close>

theorem empty_voice_error_counterexample:
  "dup_voice empty_voice = Inl max_error \<and> \<not> spec_empty_voice_error max_error \<and>
   \<not> spec_empty_voice_error (ValueError ''max() iterable argument is empty'')"
proof -
  have "dup_voice empty_voice = Inl max_error"
    by (simp add: dup_voice_empty empty_voice_def)
  moreover have "\<not> spec_empty_voice_error max_error"
    "\<not> spec_empty_voice_error (ValueError ''max() iterable argument is empty'')"
    by (simp_all add: spec_empty_voice_error_def)
  ultimately show ?thesis by simp
qed

section \<open>The duplication pass on a document\<close>

lemma dup_voice_frame: "dup_voice v = Inr v' \<Longrightarrow> voice_frame v v'"
proof (cases "interval_events v")
  case None
  assume "dup_voice v = Inr v'"
  with None have "v' = v" by (simp add: dup_voice_None)
  with None show ?thesis by (simp add: voice_frame_def)
next
  case (Some ns)
  assume run: "dup_voice v = Inr v'"
  have "ns \<noteq> []"
  proof
    assume "ns = []"
    with Some have "dup_voice v = Inl max_error" by (simp add: dup_voice_empty)
    with run show False by simp
  qed
  with Some run show ?thesis by (auto simp: dup_voice_Some voice_frame_def)
qed

lemma for_each_frame:
  assumes "\<And>x y. body x = Inr y \<Longrightarrow> R x y" and "for_each body xs = Inr ys"
  shows "list_all2 R xs ys"
proof -
  from assms(2) have "list_all2 (\<lambda>x y. body x = Inr y) xs ys"
    by (simp only: for_each_Inr_iff)
  then show ?thesis by (rule list_all2_mono) (rule assms(1))
qed

lemma dup_staff_frame: "dup_staff s = Inr s' \<Longrightarrow> staff_frame s s'"
proof (cases "voices s")
  case None
  assume "dup_staff s = Inr s'"
  with None show ?thesis by (auto simp: dup_staff_def staff_frame_def)
next
  case (Some vs)
  assume "dup_staff s = Inr s'"
  with Some obtain vs' where vs': "for_each dup_voice vs = Inr vs'" and s': "s' = s\<lparr>voices := Some vs'\<rparr>"
    by (auto simp: dup_staff_def split: sum.splits)
  from vs' have "list_all2 voice_frame vs vs'" by (rule for_each_frame [rotated]) (rule dup_voice_frame)
  with Some s' show ?thesis by (simp add: staff_frame_def)
qed

lemma dup_instrument_frame: "dup_instrument i = Inr i' \<Longrightarrow> instrument_frame i i'"
proof (cases "staves i")
  case None
  assume "dup_instrument i = Inr i'"
  with None show ?thesis by (auto simp: dup_instrument_def instrument_frame_def)
next
  case (Some ss)
  assume "dup_instrument i = Inr i'"
  with Some obtain ss' where ss': "for_each dup_staff ss = Inr ss'" and i': "i' = i\<lparr>staves := Some ss'\<rparr>"
    by (auto simp: dup_instrument_def split: sum.splits)
  from ss' have "list_all2 staff_frame ss ss'" by (rule for_each_frame [rotated]) (rule dup_staff_frame)
  with Some i' show ?thesis by (simp add: instrument_frame_def)
qed

lemma duplicate_frame: "duplicate sc = Inr sc' \<Longrightarrow> score_frame sc sc'"
proof (cases "instruments sc")
  case None
  assume "duplicate sc = Inr sc'"
  with None show ?thesis by (auto simp: duplicate_def score_frame_def)
next
  case (Some insts)
  assume run: "duplicate sc = Inr sc'"
  show ?thesis
  proof (cases "insts = []")
    case True
    with Some run show ?thesis by (auto simp: duplicate_def score_frame_def)
  next
    case False
    with Some run obtain insts' where
      insts': "for_each dup_instrument insts = Inr insts'" and sc': "sc' = sc\<lparr>instruments := Some insts'\<rparr>"
      by (auto simp: duplicate_def split: sum.splits)
    from insts' have "list_all2 instrument_frame insts insts'"
      by (rule for_each_frame [rotated]) (rule dup_instrument_frame)
    with Some sc' show ?thesis by (simp add: score_frame_def)
  qed
qed

lemma duplicate_returns:
  assumes "\<forall>v \<in> set (score_voices sc). interval_events v \<noteq> Some []"
  shows "\<exists>sc'. duplicate sc = Inr sc'"
proof (cases "duplicate sc")
  case (Inl e)
  then have "\<exists>e. duplicate sc = Inl e" by blast
  then have "\<exists>v \<in> set (score_voices sc). interval_events v = Some []"
    by (simp only: duplicate_Inl_iff)
  with assms show ?thesis by blast
next
  case (Inr sc')
  then show ?thesis by blast
qed

lemma missing_keys_pass:
  "(instruments sc = None \<longrightarrow> duplicate sc = Inr sc) \<and>
   (staves inst = None \<longrightarrow> dup_instrument inst = Inr inst) \<and>
   (voices st = None \<longrightarrow> dup_staff st = Inr st) \<and>
   (interval_events v = None \<longrightarrow> dup_voice v = Inr v)"
  by (simp add: duplicate_def dup_instrument_def dup_staff_def dup_voice_def)

lemma report_keyless: "report keyless_score = Inl (KeyError ''instruments'')"
  by (simp add: report_def keyless_score_def)


lemma append_loop_eq:
  assumes "\<forall>r \<in> set todo. r < length heap"
  shows "append_loop off todo events heap =
         (events @ [length heap..<length heap + length todo],
          heap @ map (\<lambda>r. (heap ! r)\<lparr>start_tick := start_tick (heap ! r) + off\<rparr>) todo)"
  using assms
proof (induction todo arbitrary: events heap)
  case Nil
  show ?case by simp
next
  case (Cons r todo)
  let ?new = "(heap ! r)\<lparr>start_tick := start_tick (heap ! r) + off\<rparr>"
  let ?heap = "heap @ [?new]"
  have valid: "\<forall>q \<in> set todo. q < length ?heap" using Cons.prems by auto
  have same: "map (\<lambda>q. (?heap ! q)\<lparr>start_tick := start_tick (?heap ! q) + off\<rparr>) todo =
              map (\<lambda>q. (heap ! q)\<lparr>start_tick := start_tick (heap ! q) + off\<rparr>) todo"
    using Cons.prems by (intro map_cong) (simp_all add: nth_append)
  have step: "append_loop off (r # todo) events heap =
              append_loop off todo (events @ [length heap]) ?heap"
    by (simp add: deep_copy_def)
  have idx: "[length heap..<length heap + length (r # todo)] =
             length heap # [length ?heap..<length ?heap + length todo]"
  proof -
    have "[length heap..<length heap + Suc (length todo)] =
          length heap # [Suc (length heap)..<length heap + Suc (length todo)]"
      by (rule upt_conv_Cons) simp
    then show ?thesis by simp
  qed
  have "append_loop off (r # todo) events heap =
        ((events @ [length heap]) @ [length ?heap..<length ?heap + length todo],
         ?heap @ map (\<lambda>q. (heap ! q)\<lparr>start_tick := start_tick (heap ! q) + off\<rparr>) todo)"
    by (simp only: step Cons.IH [OF valid] same)
  then show ?case by (simp only: idx append_assoc append.simps list.map)
qed

lemma append_loop_refines:
  assumes "\<forall>r \<in> set todo. r < length heap" and "\<forall>r \<in> set events. r < length heap"
    and "append_loop off todo events heap = (events', heap')"
  shows "take (length heap) heap' = heap \<and> take (length events) events' = events \<and>
         map ((!) heap') events' =
           append_shifted off (map ((!) heap) todo) (map ((!) heap) events)"
proof -
  let ?dups = "map (\<lambda>r. (heap ! r)\<lparr>start_tick := start_tick (heap ! r) + off\<rparr>) todo"
  from assms(1,3) have ev: "events' = events @ [length heap..<length heap + length todo]"
    and hp: "heap' = heap @ ?dups"
    by (simp_all add: append_loop_eq)
  have old: "map ((!) heap') events = map ((!) heap) events"
    using assms(2) by (intro map_cong) (simp_all add: hp nth_append)
  have new: "map ((!) heap') [length heap..<length heap + length todo] = ?dups"
    by (rule nth_equalityI) (simp_all add: hp nth_append)
  have "map ((!) heap') events' = map ((!) heap) events @ ?dups"
    by (simp only: ev map_append old new)
  also have "\<dots> = append_shifted off (map ((!) heap) todo) (map ((!) heap) events)"
    by (simp add: append_shifted_eq comp_def)
  finally show ?thesis by (simp add: ev hp)
qed


lemma dup_events_store_refines:
  assumes "\<forall>r \<in> set events. r < length heap"
    and "dup_events_store events heap = Inr (events', heap')"
  shows "take (length heap) heap' = heap \<and> take (length events) events' = events \<and>
         dup_voice (v\<lparr>interval_events := Some (map ((!) heap) events)\<rparr>) =
           Inr (v\<lparr>interval_events := Some (map ((!) heap') events')\<rparr>)"
proof -
  have ticks: "map (\<lambda>note. start_tick (heap ! note)) events =
               map start_tick (map ((!) heap) events)"
    by (simp add: comp_def)
  from assms(2) obtain m where
    m: "py_max (map start_tick (map ((!) heap) events)) = Inr m" and
    run: "append_loop (m + 7680) events events heap = (events', heap')"
    by (auto simp: dup_events_store_def ticks Let_def split: sum.splits)
  from append_loop_refines [OF assms(1) assms(1) run] m show ?thesis
    by (simp add: dup_voice_def Let_def)
qed

text \<open>
  C9. The pass returns when no visited voice has an empty event list, and whenever it
  returns a document, that document differs from the original only inside the voices'
  event lists (\<open>score_frame\<close>): identifiers, structural events and metadata are the same
  at every level, every voice's list starts with its original events, unchanged, and
  the copies that follow are shifted by the offset of that voice alone. On the store,
  the loop leaves every object that existed before it as it was and the voice's first
  references in place, and reading the voice's references afterwards gives the list that
  \<open>dup_voice\<close> computes.
\<close>

theorem duplication_frame:
  "((\<forall>v \<in> set (score_voices sc). interval_events v \<noteq> Some []) \<longrightarrow>
      (\<exists>sc'. duplicate sc = Inr sc')) \<and>
   (\<forall>sc'. duplicate sc = Inr sc' \<longrightarrow>
      score_frame sc sc' \<and> score_id sc' = score_id sc \<and>
      global_structural_events sc' = global_structural_events sc) \<and>
   ((\<forall>r \<in> set events. r < length heap) \<and>
    dup_events_store events heap = Inr (events', heap') \<longrightarrow>
      take (length heap) heap' = heap \<and> take (length events) events' = events \<and>
      dup_voice (v\<lparr>interval_events := Some (map ((!) heap) events)\<rparr>) =
        Inr (v\<lparr>interval_events := Some (map ((!) heap') events')\<rparr>))"
proof -
  have "score_frame sc sc' \<and> score_id sc' = score_id sc \<and>
        global_structural_events sc' = global_structural_events sc"
    if "duplicate sc = Inr sc'" for sc'
  proof -
    from that have fr: "score_frame sc sc'" by (rule duplicate_frame)
    then have eq: "sc' = sc\<lparr>instruments := instruments sc'\<rparr>" by (simp add: score_frame_def)
    have "score_id sc' = score_id sc"
      using arg_cong [OF eq, of score_id] by simp
    moreover have "global_structural_events sc' = global_structural_events sc"
      using arg_cong [OF eq, of global_structural_events] by simp
    ultimately show ?thesis using fr by simp
  qed
  moreover have "take (length heap) heap' = heap \<and> take (length events) events' = events \<and>
      dup_voice (v\<lparr>interval_events := Some (map ((!) heap) events)\<rparr>) =
        Inr (v\<lparr>interval_events := Some (map ((!) heap') events')\<rparr>)"
    if "\<forall>r \<in> set events. r < length heap"
      and "dup_events_store events heap = Inr (events', heap')"
    using that by (rule dup_events_store_refines)
  ultimately show ?thesis using duplicate_returns by blast
qed

lemma two_voice_run: "duplicate two_voice_score = Inr two_voice_result"
  by (simp add: duplicate_def dup_instrument_def dup_staff_def dup_voice_def append_shifted_eq
      two_voice_score_def two_voice_result_def example_score_def example_staff_def
      scenario_b_voice_def scenario_b_notes_def short_voice_def)

lemma scenario_b_store_run:
  "dup_events_store [0, 1, 2] scenario_b_notes =
   Inr ([0, 1, 2, 3, 4, 5],
        scenario_b_notes @ map (\<lambda>n. n\<lparr>start_tick := start_tick n + 8640\<rparr>) scenario_b_notes)"
  by (simp add: dup_events_store_def deep_copy_def scenario_b_notes_def)

theorem duplication_frame_witness:
  "list_all (\<lambda>v. interval_events v \<noteq> Some []) (score_voices two_voice_score) \<and>
   duplicate two_voice_score = Inr two_voice_result \<and>
   score_frame two_voice_score two_voice_result \<and>
   score_id two_voice_result = ''sc'' \<and>
   global_structural_events two_voice_result = [Tempo 0 120, TimeSignature 0 4 4] \<and>
   map (\<lambda>v. map start_tick (voice_events v)) (score_voices two_voice_result) =
     [[0, 480, 960, 8640, 9120, 9600], [100, 7880]] \<and>
   list_all (\<lambda>r. r < length scenario_b_notes) [0, 1, 2] \<and>
   dup_events_store [0, 1, 2] scenario_b_notes =
     Inr ([0, 1, 2, 3, 4, 5],
          scenario_b_notes @ map (\<lambda>n. n\<lparr>start_tick := start_tick n + 8640\<rparr>) scenario_b_notes) \<and>
   take 3 (scenario_b_notes @ map (\<lambda>n. n\<lparr>start_tick := start_tick n + 8640\<rparr>) scenario_b_notes) =
     scenario_b_notes"
proof -
  have h: "list_all (\<lambda>v. interval_events v \<noteq> Some []) (score_voices two_voice_score)"
    by (simp add: two_voice_score_def example_score_def example_staff_def score_voices_def
        score_instruments_def instrument_staves_def staff_voices_def scenario_b_voice_def
        scenario_b_notes_def short_voice_def)
  then have h': "\<forall>v \<in> set (score_voices two_voice_score). interval_events v \<noteq> Some []"
    by (simp only: list_all_iff)
  have ticks: "map (\<lambda>v. map start_tick (voice_events v)) (score_voices two_voice_result) =
     [[0, 480, 960, 8640, 9120, 9600], [100, 7880]]"
    by (simp add: two_voice_result_def example_score_def example_staff_def score_voices_def
        score_instruments_def instrument_staves_def staff_voices_def scenario_b_voice_def
        scenario_b_notes_def short_voice_def voice_events_def)
  have ids: "score_id two_voice_score = ''sc''"
    "global_structural_events two_voice_score = [Tempo 0 120, TimeSignature 0 4 4]"
    by (simp_all add: two_voice_score_def example_score_def)
  have refs: "list_all (\<lambda>r. r < length scenario_b_notes) [0, 1, 2]"
    by (simp add: scenario_b_notes_def)
  then have refs': "\<forall>r \<in> set [0, 1, 2]. r < length scenario_b_notes"
    by (simp only: list_all_iff)
  have len: "length scenario_b_notes = 3" by (simp add: scenario_b_notes_def)
  note frame = duplication_frame [of two_voice_score "[0, 1, 2]" scenario_b_notes
      "[0, 1, 2, 3, 4, 5]"
      "scenario_b_notes @ map (\<lambda>n. n\<lparr>start_tick := start_tick n + 8640\<rparr>) scenario_b_notes"]
  from frame h' obtain sc' where
    run: "duplicate two_voice_score = Inr sc'" and fr: "score_frame two_voice_score sc'"
    and keep: "score_id sc' = score_id two_voice_score"
      "global_structural_events sc' = global_structural_events two_voice_score"
    by blast
  from run have sc': "sc' = two_voice_result" by (simp add: two_voice_run)
  from frame refs' scenario_b_store_run have
    "take (length scenario_b_notes)
       (scenario_b_notes @ map (\<lambda>n. n\<lparr>start_tick := start_tick n + 8640\<rparr>) scenario_b_notes) =
     scenario_b_notes"
    by blast
  then have old: "take 3 (scenario_b_notes @
      map (\<lambda>n. n\<lparr>start_tick := start_tick n + 8640\<rparr>) scenario_b_notes) = scenario_b_notes"
    by (simp only: len)
  from run fr keep h ticks ids refs scenario_b_store_run old sc' show ?thesis by simp
qed

section \<open>The synthesized notes\<close>

lemma staff_notes_length:
  "length (staff_notes prefix seed pitch_at t) = measure_count t * notes_per_measure t"
  by (simp only: staff_notes_eq length_map length_upt diff_zero)

lemma staff_notes_nth:
  assumes "k < measure_count t * notes_per_measure t"
  shows "staff_notes prefix seed pitch_at t ! k =
         note_of prefix pitch_at t seed (k div notes_per_measure t) (k mod notes_per_measure t)"
  using assms by (simp add: staff_notes_eq)

lemma staff_notes_ids:
  "map note_id (staff_notes prefix seed pitch_at t) =
   map (\<lambda>k. note_name prefix (seed + k)) [0..<measure_count t * notes_per_measure t]"
  by (simp add: staff_notes_eq note_of_def add.assoc)

lemma fixture_tick:
  "start_tick (note_of prefix pitch_at fixture_timing seed (k div 8) (k mod 8)) = 480 * int k"
proof -
  have "int k = 8 * int (k div 8) + int (k mod 8)"
    by (simp add: zdiv_int zmod_int)
  then show ?thesis by (simp add: note_of_def fixture_timing_def)
qed

lemma fixture_nth:
  assumes "k < 240"
  shows "staff_notes prefix seed pitch_at fixture_timing ! k =
         \<lparr>note_id = note_name prefix (seed + k), start_tick = 480 * int k,
          duration_ticks = 480, pitch = pitch_at (k mod 8)\<rparr>"
proof -
  have t: "measure_count fixture_timing * notes_per_measure fixture_timing = 240"
    "notes_per_measure fixture_timing = 8"
    by (simp_all add: fixture_timing_def)
  have "staff_notes prefix seed pitch_at fixture_timing ! k =
        note_of prefix pitch_at fixture_timing seed (k div 8) (k mod 8)"
    using staff_notes_nth [of k fixture_timing prefix seed pitch_at] assms
    by (simp add: fixture_timing_def)
  moreover have "start_tick (note_of prefix pitch_at fixture_timing seed (k div 8) (k mod 8)) = 480 * int k"
    by (rule fixture_tick)
  moreover have "note_id (note_of prefix pitch_at fixture_timing seed (k div 8) (k mod 8)) =
                 note_name prefix (seed + k)"
    by (simp add: note_of_def fixture_timing_def add.assoc)
  moreover have "duration_ticks (note_of prefix pitch_at fixture_timing seed (k div 8) (k mod 8)) = 480"
    "pitch (note_of prefix pitch_at fixture_timing seed (k div 8) (k mod 8)) = pitch_at (k mod 8)"
    by (simp_all add: note_of_def fixture_timing_def)
  ultimately show ?thesis by simp
qed

lemma fixture_length: "length (staff_notes prefix seed pitch_at fixture_timing) = 240"
  by (simp add: staff_notes_length fixture_timing_def)

lemma fixture_last:
  "last (staff_notes prefix seed pitch_at fixture_timing) =
   \<lparr>note_id = note_name prefix (seed + 239), start_tick = 114720,
    duration_ticks = 480, pitch = pitch_at 7\<rparr>"
proof -
  let ?ns = "staff_notes prefix seed pitch_at fixture_timing"
  have "?ns \<noteq> []" using fixture_length [of prefix seed pitch_at] by auto
  then have "last ?ns = ?ns ! 239"
    by (simp add: last_conv_nth fixture_length)
  then show ?thesis by (simp add: fixture_nth)
qed

lemma fixture_span:
  "Min (set (map start_tick (staff_notes prefix seed pitch_at fixture_timing))) = 0 \<and>
   Max (set (map (\<lambda>n. start_tick n + duration_ticks n)
     (staff_notes prefix seed pitch_at fixture_timing))) = 115200"
proof -
  let ?ns = "staff_notes prefix seed pitch_at fixture_timing"
  have len: "length ?ns = 240" by (rule fixture_length)
  have mem: "\<exists>k<240. n = ?ns ! k" if "n \<in> set ?ns" for n
    using that by (metis in_set_conv_nth len)
  have lo: "0 \<le> start_tick n" and hi: "start_tick n + duration_ticks n \<le> 115200"
    if "n \<in> set ?ns" for n
  proof -
    from mem [OF that] obtain k where k: "k < 240" "n = ?ns ! k" by blast
    then show "0 \<le> start_tick n" "start_tick n + duration_ticks n \<le> 115200"
      by (simp_all add: fixture_nth)
  qed
  have first: "?ns ! 0 \<in> set ?ns" and final: "?ns ! 239 \<in> set ?ns"
    by (simp_all add: len)
  have "Min (set (map start_tick ?ns)) = 0"
  proof (rule Min_eqI)
    show "finite (set (map start_tick ?ns))" by simp
    show "0 \<le> y" if "y \<in> set (map start_tick ?ns)" for y
      using that lo by auto
    have "start_tick (?ns ! 0) = 0" by (simp add: fixture_nth)
    with first show "0 \<in> set (map start_tick ?ns)" by (metis image_eqI set_map)
  qed
  moreover have "Max (set (map (\<lambda>n. start_tick n + duration_ticks n) ?ns)) = 115200"
  proof (rule Max_eqI)
    show "finite (set (map (\<lambda>n. start_tick n + duration_ticks n) ?ns))" by simp
    show "y \<le> 115200" if "y \<in> set (map (\<lambda>n. start_tick n + duration_ticks n) ?ns)" for y
      using that hi by auto
    have "start_tick (?ns ! 239) + duration_ticks (?ns ! 239) = 115200"
      by (simp add: fixture_nth)
    with final show "115200 \<in> set (map (\<lambda>n. start_tick n + duration_ticks n) ?ns)"
      by (metis (mono_tags, lifting) image_eqI set_map)
  qed
  ultimately show ?thesis by simp
qed

lemma fixture_staves:
  "map staff_events (concat (map instrument_staves (score_instruments generate_dense_fixture))) =
   [treble_notes, bass_notes]"
  by (simp add: generate_dense_fixture_def score_instruments_def instrument_staves_def
      staff_events_def staff_voices_def voice_events_def)

lemma staff_notes_gap:
  assumes "Suc k < length (staff_notes prefix seed pitch_at t)"
  shows "start_tick (staff_notes prefix seed pitch_at t ! Suc k) -
         start_tick (staff_notes prefix seed pitch_at t ! k) =
         (if Suc k mod notes_per_measure t = 0
          then ticks_per_measure t - (int (notes_per_measure t) - 1) * note_duration t
          else note_duration t)"
proof -
  let ?N = "notes_per_measure t"
  from assms have b: "Suc k < measure_count t * ?N" and b': "k < measure_count t * ?N"
    by (simp_all add: staff_notes_length)
  have tick: "start_tick (staff_notes prefix seed pitch_at t ! j) =
      int (j div ?N) * ticks_per_measure t + int (j mod ?N) * note_duration t"
    if "j < measure_count t * ?N" for j
    using that by (simp add: staff_notes_nth note_of_def)
  show ?thesis
  proof (cases "Suc k mod ?N = 0")
    case True
    then have m: "Suc (k mod ?N) = ?N" by (simp add: mod_Suc split: if_splits)
    have d: "Suc k div ?N = Suc (k div ?N)" using True by (simp add: div_Suc)
    have "int (k mod ?N) = int ?N - 1" using m by linarith
    then have lo: "start_tick (staff_notes prefix seed pitch_at t ! k) =
        int (k div ?N) * ticks_per_measure t + (int ?N - 1) * note_duration t"
      by (simp only: tick [OF b'])
    have hi: "start_tick (staff_notes prefix seed pitch_at t ! Suc k) =
        (int (k div ?N) + 1) * ticks_per_measure t"
      using True d by (simp add: tick [OF b])
    have "(int (k div ?N) + 1) * ticks_per_measure t -
          (int (k div ?N) * ticks_per_measure t + (int ?N - 1) * note_duration t) =
          ticks_per_measure t - (int ?N - 1) * note_duration t"
      by (simp add: algebra_simps)
    with True lo hi show ?thesis by simp
  next
    case False
    then have m: "Suc k mod ?N = Suc (k mod ?N)" by (simp add: mod_Suc split: if_splits)
    have d: "Suc k div ?N = k div ?N" using False by (simp add: div_Suc)
    from False m d show ?thesis by (simp add: tick [OF b] tick [OF b'] algebra_simps)
  qed
qed

lemma fixture_gap:
  assumes "Suc k < 240"
  shows "start_tick (staff_notes prefix seed pitch_at fixture_timing ! Suc k) -
         start_tick (staff_notes prefix seed pitch_at fixture_timing ! k) = 480"
proof -
  from assms have "k < 240" by simp
  with assms show ?thesis by (simp add: fixture_nth)
qed

lemma fixture_ascending:
  "sorted_wrt (<) (map start_tick (staff_notes prefix seed pitch_at fixture_timing))"
proof -
  have "i < j \<Longrightarrow> j < 240 \<Longrightarrow>
        start_tick (staff_notes prefix seed pitch_at fixture_timing ! i) <
        start_tick (staff_notes prefix seed pitch_at fixture_timing ! j)" for i j
    by (simp add: fixture_nth)
  then show ?thesis by (simp add: sorted_wrt_iff_nth_less fixture_length)
qed

text \<open>
  C5. The loops make \<open>measure_count * notes_per_measure\<close> notes for a staff. With the
  script's constants each of the two staves of the document holds 240 notes, the last of
  which starts at tick 114720; the notes of a staff start at tick 0 and the last one
  ends at tick 115200, which is \<open>measure_count * ticks_per_measure\<close>.
\<close>

theorem synthesis_cardinality:
  "length (staff_notes prefix seed pitch_at t) = measure_count t * notes_per_measure t \<and>
   map staff_events (concat (map instrument_staves (score_instruments generate_dense_fixture))) =
     [treble_notes, bass_notes] \<and>
   length treble_notes = 240 \<and> length bass_notes = 240 \<and>
   measure_count fixture_timing * notes_per_measure fixture_timing = 240 \<and>
   start_tick (last treble_notes) = 114720 \<and> start_tick (last bass_notes) = 114720 \<and>
   Min (set (map start_tick treble_notes)) = 0 \<and>
   Max (set (map (\<lambda>n. start_tick n + duration_ticks n) treble_notes)) = 115200 \<and>
   Min (set (map start_tick bass_notes)) = 0 \<and>
   Max (set (map (\<lambda>n. start_tick n + duration_ticks n) bass_notes)) = 115200 \<and>
   int (measure_count fixture_timing) * ticks_per_measure fixture_timing = 115200"
proof -
  have "measure_count fixture_timing * notes_per_measure fixture_timing = 240"
    "int (measure_count fixture_timing) * ticks_per_measure fixture_timing = 115200"
    by (simp_all add: fixture_timing_def)
  moreover have "start_tick (last treble_notes) = 114720" "start_tick (last bass_notes) = 114720"
    by (simp_all add: treble_notes_def bass_notes_def fixture_last)
  moreover have "length treble_notes = 240" "length bass_notes = 240"
    by (simp_all only: treble_notes_def bass_notes_def fixture_length)
  ultimately show ?thesis
    by (simp only: staff_notes_length fixture_staves fixture_span treble_notes_def bass_notes_def
        simp_thms)
qed

text \<open>
  C6. Two consecutive notes of a staff are \<open>note_duration\<close> apart inside a measure and
  \<open>ticks_per_measure - (notes_per_measure - 1) * note_duration\<close> apart across a measure
  boundary. With the script's constants both steps are 480 ticks, so every gap is 480
  and the start ticks strictly ascend.
\<close>

theorem synthesis_tick_spacing:
  "(\<forall>k. Suc k < length (staff_notes prefix seed pitch_at t) \<longrightarrow>
      start_tick (staff_notes prefix seed pitch_at t ! Suc k) -
      start_tick (staff_notes prefix seed pitch_at t ! k) =
        (if Suc k mod notes_per_measure t = 0
         then ticks_per_measure t - (int (notes_per_measure t) - 1) * note_duration t
         else note_duration t) \<and>
      start_tick (staff_notes prefix seed pitch_at t ! Suc k) -
      start_tick (staff_notes prefix seed pitch_at t ! k) \<in>
        {note_duration t,
         ticks_per_measure t - (int (notes_per_measure t) - 1) * note_duration t}) \<and>
   note_duration fixture_timing = 480 \<and>
   ticks_per_measure fixture_timing -
     (int (notes_per_measure fixture_timing) - 1) * note_duration fixture_timing = 480 \<and>
   (\<forall>k. Suc k < 240 \<longrightarrow>
      start_tick (treble_notes ! Suc k) - start_tick (treble_notes ! k) = 480 \<and>
      start_tick (bass_notes ! Suc k) - start_tick (bass_notes ! k) = 480) \<and>
   sorted_wrt (<) (map start_tick treble_notes) \<and>
   sorted_wrt (<) (map start_tick bass_notes)"
proof -
  have "note_duration fixture_timing = 480"
    "ticks_per_measure fixture_timing -
       (int (notes_per_measure fixture_timing) - 1) * note_duration fixture_timing = 480"
    by (simp_all add: fixture_timing_def)
  moreover have "sorted_wrt (<) (map start_tick treble_notes)"
    "sorted_wrt (<) (map start_tick bass_notes)"
    by (simp_all only: treble_notes_def bass_notes_def fixture_ascending)
  moreover have "\<forall>k. Suc k < 240 \<longrightarrow>
      start_tick (treble_notes ! Suc k) - start_tick (treble_notes ! k) = 480 \<and>
      start_tick (bass_notes ! Suc k) - start_tick (bass_notes ! k) = 480"
    by (intro allI impI) (simp add: treble_notes_def bass_notes_def fixture_gap)
  moreover have "\<forall>k. Suc k < length (staff_notes prefix seed pitch_at t) \<longrightarrow>
      start_tick (staff_notes prefix seed pitch_at t ! Suc k) -
      start_tick (staff_notes prefix seed pitch_at t ! k) =
        (if Suc k mod notes_per_measure t = 0
         then ticks_per_measure t - (int (notes_per_measure t) - 1) * note_duration t
         else note_duration t) \<and>
      start_tick (staff_notes prefix seed pitch_at t ! Suc k) -
      start_tick (staff_notes prefix seed pitch_at t ! k) \<in>
        {note_duration t,
         ticks_per_measure t - (int (notes_per_measure t) - 1) * note_duration t}"
    by (simp add: staff_notes_gap)
  ultimately show ?thesis by blast
qed

theorem synthesis_tick_spacing_witness:
  "Suc 7 < length treble_notes \<and> Suc 7 mod notes_per_measure fixture_timing = 0 \<and>
   start_tick (treble_notes ! Suc 7) - start_tick (treble_notes ! 7) =
     ticks_per_measure fixture_timing -
       (int (notes_per_measure fixture_timing) - 1) * note_duration fixture_timing \<and>
   start_tick (treble_notes ! 7) = 3360 \<and> start_tick (treble_notes ! Suc 7) = 3840 \<and>
   Suc 3 < length treble_notes \<and> Suc 3 < 240 \<and>
   start_tick (treble_notes ! Suc 3) - start_tick (treble_notes ! 3) = 480"
proof -
  have h: "Suc 7 < length treble_notes" "Suc 3 < length treble_notes"
    by (simp_all add: treble_notes_def fixture_length)
  have v: "start_tick (treble_notes ! 7) = 3360" "start_tick (treble_notes ! Suc 7) = 3840"
    by (simp_all add: treble_notes_def fixture_nth)
  have m: "Suc 7 mod notes_per_measure fixture_timing = 0"
    by (simp add: fixture_timing_def)
  have b: "Suc 3 < 240" by simp
  note spacing = synthesis_tick_spacing
    [of "''tn''" 10 "\<lambda>note_idx. treble_pitches ! (note_idx mod length treble_pitches)"
      fixture_timing, folded treble_notes_def]
  from spacing h(1) m have "start_tick (treble_notes ! Suc 7) - start_tick (treble_notes ! 7) =
     ticks_per_measure fixture_timing -
       (int (notes_per_measure fixture_timing) - 1) * note_duration fixture_timing"
    by presburger
  moreover from spacing b have "start_tick (treble_notes ! Suc 3) - start_tick (treble_notes ! 3) = 480"
    by blast
  ultimately show ?thesis using h v m b by blast
qed

lemma bass_octave_below: "bass_pitches = map (\<lambda>p. p - 12) treble_pitches"
  by (simp add: bass_pitches_def treble_pitches_def)

lemma pitch_lists_length: "length treble_pitches = 8" "length bass_pitches = 8"
  by (simp_all add: bass_pitches_def treble_pitches_def)

text \<open>
  C10. The two staves are aligned note for note: at each of the 240 positions the treble
  and the bass note start at the same tick, both last 480 ticks, and the bass pitch is
  the treble pitch minus 12.
\<close>

theorem staves_aligned:
  "length treble_notes = 240 \<and> length bass_notes = 240 \<and>
   (\<forall>j<240.
      start_tick (treble_notes ! j) = start_tick (bass_notes ! j) \<and>
      duration_ticks (treble_notes ! j) = 480 \<and>
      duration_ticks (bass_notes ! j) = 480 \<and>
      pitch (bass_notes ! j) = pitch (treble_notes ! j) - 12)"
proof -
  have "pitch (bass_notes ! j) = pitch (treble_notes ! j) - 12" if "j < 240" for j
  proof -
    have "j mod 8 < length treble_pitches" by (simp add: pitch_lists_length)
    then have "bass_pitches ! (j mod 8) = treble_pitches ! (j mod 8) - 12"
      by (simp only: bass_octave_below nth_map)
    with that show ?thesis
      by (simp add: treble_notes_def bass_notes_def fixture_nth pitch_lists_length)
  qed
  moreover have "start_tick (treble_notes ! j) = start_tick (bass_notes ! j) \<and>
      duration_ticks (treble_notes ! j) = 480 \<and> duration_ticks (bass_notes ! j) = 480"
    if "j < 240" for j
    using that by (simp add: treble_notes_def bass_notes_def fixture_nth)
  moreover have "length treble_notes = 240" "length bass_notes = 240"
    by (simp_all only: treble_notes_def bass_notes_def fixture_length)
  ultimately show ?thesis by blast
qed

theorem staves_aligned_witness:
  "(9::nat) < 240 \<and> start_tick (treble_notes ! 9) = 4320 \<and> start_tick (bass_notes ! 9) = 4320 \<and>
   duration_ticks (treble_notes ! 9) = 480 \<and> duration_ticks (bass_notes ! 9) = 480 \<and>
   pitch (treble_notes ! 9) = 62 \<and> pitch (bass_notes ! 9) = 50"
proof -
  have b: "(9::nat) < 240" by simp
  have t: "start_tick (treble_notes ! 9) = 4320" "pitch (treble_notes ! 9) = 62"
    by (simp_all add: treble_notes_def fixture_nth treble_pitches_def)
  from staves_aligned b have
    "start_tick (treble_notes ! 9) = start_tick (bass_notes ! 9) \<and>
     duration_ticks (treble_notes ! 9) = 480 \<and> duration_ticks (bass_notes ! 9) = 480 \<and>
     pitch (bass_notes ! 9) = pitch (treble_notes ! 9) - 12"
    by blast
  with b t show ?thesis by simp
qed

section \<open>The identifiers of the synthesized notes\<close>

lemma digit_value_char: "d < 10 \<Longrightarrow> digit_value (digit_char d) = d"
proof -
  assume "d < 10"
  then have "d \<in> {0, 1, 2, 3, 4, 5, 6, 7, 8, 9}" by auto
  then show ?thesis by (auto simp: digit_value_def digit_char_def)
qed

lemma decimal_value_snoc: "decimal_value (s @ [c]) = 10 * decimal_value s + digit_value c"
  by (simp add: decimal_value_def)

lemma decimal_value_decimal: "decimal_value (decimal n) = n"
proof (induction n rule: decimal.induct)
  case (1 n)
  show ?case
  proof (cases "n < 10")
    case True
    then show ?thesis
      by (subst decimal.simps) (simp add: decimal_value_def digit_value_char)
  next
    case False
    with 1 have "decimal_value (decimal (n div 10)) = n div 10" by simp
    with False show ?thesis
      by (subst decimal.simps) (simp add: decimal_value_snoc digit_value_char)
  qed
qed

lemma decimal_value_zeros: "decimal_value (replicate k CHR ''0'' @ s) = decimal_value s"
proof -
  have "foldl (\<lambda>a c. 10 * a + digit_value c) 0 (replicate k CHR ''0'') = 0"
    by (induction k) (simp_all add: digit_value_def)
  then show ?thesis by (simp add: decimal_value_def)
qed

lemma format_04d_value: "decimal_value (format_04d n) = n"
  by (simp add: format_04d_def decimal_value_zeros decimal_value_decimal)

lemma note_name_inj: "note_name prefix m = note_name prefix n \<Longrightarrow> m = n"
proof -
  assume "note_name prefix m = note_name prefix n"
  then have "format_04d m = format_04d n" by (simp add: note_name_def)
  then have "decimal_value (format_04d m) = decimal_value (format_04d n)" by simp
  then show ?thesis by (simp only: format_04d_value)
qed

lemma staff_notes_ids_distinct: "distinct (map note_id (staff_notes prefix seed pitch_at t))"
proof -
  have "inj_on (\<lambda>k. note_name prefix (seed + k)) (set [0..<measure_count t * notes_per_measure t])"
    by (rule inj_onI) (auto dest: note_name_inj)
  then show ?thesis by (simp add: staff_notes_ids distinct_map)
qed


lemma fixture_events: "score_events generate_dense_fixture = treble_notes @ bass_notes"
  by (simp add: generate_dense_fixture_def score_events_def score_voices_def
      score_instruments_def instrument_staves_def staff_voices_def voice_events_def)

lemma fixture_ids:
  "map note_id (staff_notes prefix seed pitch_at fixture_timing) =
   map (\<lambda>k. note_name prefix (seed + k)) [0..<240]"
proof -
  have "measure_count fixture_timing * notes_per_measure fixture_timing = 240"
    by (simp add: fixture_timing_def)
  then show ?thesis by (simp only: staff_notes_ids)
qed

lemma first_names:
  "note_name ''tn'' 10 = ''tn0010-8400-e29b-41d4-a716-446655440000''"
  "note_name ''bn'' 10000 = ''bn10000-8400-e29b-41d4-a716-446655440000''"
proof -
  have d1: "decimal (Suc 0) = ''1''"
    by (subst decimal.simps) (simp add: digit_char_def)
  have d10: "decimal 10 = ''10''"
    by (subst decimal.simps) (simp add: d1 digit_char_def)
  have d100: "decimal 100 = ''100''"
    by (subst decimal.simps) (simp add: d10 digit_char_def)
  have d1000: "decimal 1000 = ''1000''"
    by (subst decimal.simps) (simp add: d100 digit_char_def)
  have d10000: "decimal 10000 = ''10000''"
    by (subst decimal.simps) (simp add: d1000 digit_char_def)
  show "note_name ''tn'' 10 = ''tn0010-8400-e29b-41d4-a716-446655440000''"
    by (simp add: note_name_def format_04d_def d10 numeral_2_eq_2)
  show "note_name ''bn'' 10000 = ''bn10000-8400-e29b-41d4-a716-446655440000''"
    by (simp add: note_name_def format_04d_def d10000)
qed

lemma staves_ids_disjoint:
  "set (map note_id treble_notes) \<inter> set (map note_id bass_notes) = {}"
proof -
  have "hd x = CHR ''t''" if "x \<in> set (map note_id treble_notes)" for x
    using that by (auto simp: treble_notes_def fixture_ids note_name_def)
  moreover have "hd x = CHR ''b''" if "x \<in> set (map note_id bass_notes)" for x
    using that by (auto simp: bass_notes_def fixture_ids note_name_def)
  ultimately show ?thesis by fastforce
qed

text \<open>
  C7. No two interval events of the synthesized document share an identifier: the
  identifiers of a staff come from one counter and are pairwise different, the treble
  identifiers are \<^verbatim>\<open>tn\<close> with the counter from 10 on, the bass identifiers \<^verbatim>\<open>bn\<close>
  with the counter from 10000 on, and no identifier occurs on both staves.
\<close>

theorem synthesis_ids_unique:
  "distinct (map note_id (staff_notes prefix seed pitch_at t)) \<and>
   score_events generate_dense_fixture = treble_notes @ bass_notes \<and>
   distinct (map note_id (score_events generate_dense_fixture)) \<and>
   distinct (map note_id treble_notes) \<and> distinct (map note_id bass_notes) \<and>
   set (map note_id treble_notes) \<inter> set (map note_id bass_notes) = {} \<and>
   map note_id treble_notes = map (\<lambda>k. note_name ''tn'' (10 + k)) [0..<240] \<and>
   map note_id bass_notes = map (\<lambda>k. note_name ''bn'' (10000 + k)) [0..<240] \<and>
   note_id (treble_notes ! 0) = ''tn0010-8400-e29b-41d4-a716-446655440000'' \<and>
   note_id (bass_notes ! 0) = ''bn10000-8400-e29b-41d4-a716-446655440000''"
proof -
  have d: "distinct (map note_id treble_notes)" "distinct (map note_id bass_notes)"
    by (simp_all only: treble_notes_def bass_notes_def staff_notes_ids_distinct)
  have all: "distinct (map note_id (score_events generate_dense_fixture))"
    using d staves_ids_disjoint by (simp add: fixture_events)
  have ids: "map note_id treble_notes = map (\<lambda>k. note_name ''tn'' (10 + k)) [0..<240]"
    "map note_id bass_notes = map (\<lambda>k. note_name ''bn'' (10000 + k)) [0..<240]"
    by (simp_all only: treble_notes_def bass_notes_def fixture_ids)
  have first: "note_id (treble_notes ! 0) = ''tn0010-8400-e29b-41d4-a716-446655440000''"
    "note_id (bass_notes ! 0) = ''bn10000-8400-e29b-41d4-a716-446655440000''"
    by (simp_all add: treble_notes_def bass_notes_def fixture_nth first_names)
  from d all ids first staves_ids_disjoint fixture_events staff_notes_ids_distinct
  show ?thesis by blast
qed

end
